theory Spec2Isabelle
  imports Main "HOL-Library.Word"
begin

unbundle bit_operations_syntax

section \<open>Machine types and constants of the VGA header\<close>

text \<open>
  The kernel only builds for 32-bit ix86 (the sources stop with an error
  otherwise), so \<open>size_t\<close> is a 32-bit unsigned integer. A \<open>char\<close> is a byte; it is
  compared with character constants and converted to \<open>unsigned char\<close> bit for bit.
\<close>

type_synonym size_t = "32 word"
type_synonym uint8_t = "8 word"
type_synonym uint16_t = "16 word"

text \<open>The macros \<open>VGA_WIDTH\<close> and \<open>VGA_HEIGHT\<close> are untyped literals: they are used
  at \<open>size_t\<close> in comparisons and as loop bounds.\<close>

definition VGA_WIDTH :: "'a::numeral" where
  "VGA_WIDTH = 80"

definition VGA_HEIGHT :: "'a::numeral" where
  "VGA_HEIGHT = 25"

datatype vga_color =
    VGA_COLOR_BLACK | VGA_COLOR_BLUE | VGA_COLOR_GREEN | VGA_COLOR_CYAN
  | VGA_COLOR_RED | VGA_COLOR_MAGENTA | VGA_COLOR_BROWN | VGA_COLOR_LIGHT_GREY
  | VGA_COLOR_DARK_GREY | VGA_COLOR_LIGHT_BLUE | VGA_COLOR_LIGHT_GREEN
  | VGA_COLOR_LIGHT_CYAN | VGA_COLOR_LIGHT_RED | VGA_COLOR_LIGHT_MAGENTA
  | VGA_COLOR_LIGHT_BROWN | VGA_COLOR_WHITE

fun vga_color_code :: "vga_color \<Rightarrow> uint8_t" where
  "vga_color_code VGA_COLOR_BLACK = 0"
| "vga_color_code VGA_COLOR_BLUE = 1"
| "vga_color_code VGA_COLOR_GREEN = 2"
| "vga_color_code VGA_COLOR_CYAN = 3"
| "vga_color_code VGA_COLOR_RED = 4"
| "vga_color_code VGA_COLOR_MAGENTA = 5"
| "vga_color_code VGA_COLOR_BROWN = 6"
| "vga_color_code VGA_COLOR_LIGHT_GREY = 7"
| "vga_color_code VGA_COLOR_DARK_GREY = 8"
| "vga_color_code VGA_COLOR_LIGHT_BLUE = 9"
| "vga_color_code VGA_COLOR_LIGHT_GREEN = 10"
| "vga_color_code VGA_COLOR_LIGHT_CYAN = 11"
| "vga_color_code VGA_COLOR_LIGHT_RED = 12"
| "vga_color_code VGA_COLOR_LIGHT_MAGENTA = 13"
| "vga_color_code VGA_COLOR_LIGHT_BROWN = 14"
| "vga_color_code VGA_COLOR_WHITE = 15"

text \<open>\<open>return fg | bg << 4;\<close> truncated to \<open>uint8_t\<close>.\<close>

definition vga_entry_color :: "vga_color \<Rightarrow> vga_color \<Rightarrow> uint8_t" where
  "vga_entry_color fg bg = vga_color_code fg OR push_bit 4 (vga_color_code bg)"

text \<open>\<open>return (uint16_t) uc | (uint16_t) color << 8;\<close>\<close>

definition vga_entry :: "uint8_t \<Rightarrow> uint8_t \<Rightarrow> uint16_t" where
  "vga_entry uc color = ucast uc OR push_bit 8 (ucast color)"

section \<open>Terminal state\<close>

text \<open>
  The three static variables of the terminal, the memory seen through
  \<open>terminal_buffer\<close>, and the bytes sent to I/O ports by \<open>outb\<close>, oldest first.
  Cell \<open>i\<close> of the memory is the 16-bit word at address \<open>VGA_MEMORY + 2 * i\<close>; the
  visible grid is the cells below \<open>VGA_WIDTH * VGA_HEIGHT\<close>.
\<close>

record terminal =
  terminal_row :: size_t
  terminal_column :: size_t
  terminal_color :: uint8_t
  terminal_buffer :: "nat \<Rightarrow> uint16_t"
  ports :: "(uint16_t \<times> uint8_t) list"

text \<open>
  \<open>terminal_buffer[index]\<close> is the 16-bit word at the address
  \<open>VGA_MEMORY + 2 * index\<close>, computed in 32 bits: two values of \<open>index\<close> that differ
  by \<open>2 ^ 31\<close> name the same cell. \<open>cell_of_index\<close> gives the number of that cell.
  The loops of \<open>terminal_initialize\<close> and \<open>terminal_scroll\<close> only form indices below
  \<open>VGA_WIDTH * VGA_HEIGHT\<close>, which are their own cell numbers.
\<close>

definition VGA_MEMORY :: size_t where
  "VGA_MEMORY = 0xB8000"

definition cell_of_index :: "size_t \<Rightarrow> nat" where
  "cell_of_index index = unat (VGA_MEMORY + 2 * index - VGA_MEMORY) div 2"

definition outb :: "uint16_t \<Rightarrow> uint8_t \<Rightarrow> terminal \<Rightarrow> terminal" where
  "outb port val t = t\<lparr>ports := ports t @ [(port, val)]\<rparr>"

definition terminal_update_cursor :: "size_t \<Rightarrow> size_t \<Rightarrow> terminal \<Rightarrow> terminal" where
  "terminal_update_cursor x y t =
     (let pos = (ucast (y * VGA_WIDTH + x) :: uint16_t);
          t1 = outb 0x3D4 0x0F t;
          t2 = outb 0x3D5 (ucast (pos AND 0xFF)) t1;
          t3 = outb 0x3D4 0x0E t2
      in outb 0x3D5 (ucast (drop_bit 8 pos AND 0xFF)) t3)"

text \<open>The two nested loops that fill the grid, and the loops of the scroll, run
  over fixed ranges of \<open>x\<close> and \<open>y\<close>; each is a fold over that range, in order.\<close>

definition terminal_initialize :: "terminal \<Rightarrow> terminal" where
  "terminal_initialize t =
     (let t1 = t\<lparr>terminal_row := 0, terminal_column := 0,
                  terminal_color := vga_entry_color VGA_COLOR_LIGHT_RED VGA_COLOR_DARK_GREY\<rparr>;
          b = fold (\<lambda>y. fold (\<lambda>x b. b(y * VGA_WIDTH + x := vga_entry 0x20 (terminal_color t1)))
                              [0..<VGA_WIDTH])
                   [0..<VGA_HEIGHT] (terminal_buffer t1);
          t2 = t1\<lparr>terminal_buffer := b\<rparr>
      in terminal_update_cursor (terminal_column t2) (terminal_row t2) t2)"

definition terminal_setcolor :: "uint8_t \<Rightarrow> terminal \<Rightarrow> terminal" where
  "terminal_setcolor color t = t\<lparr>terminal_color := color\<rparr>"

definition terminal_scroll :: "terminal \<Rightarrow> terminal" where
  "terminal_scroll t =
     (let b1 = fold (\<lambda>y. fold (\<lambda>x b. b(y * VGA_WIDTH + x := b ((y + 1) * VGA_WIDTH + x)))
                               [0..<VGA_WIDTH])
                    [0..<VGA_HEIGHT - 1] (terminal_buffer t);
          last_row_y = VGA_HEIGHT - 1;
          b2 = fold (\<lambda>x b. b(last_row_y * VGA_WIDTH + x := vga_entry 0x20 (terminal_color t)))
                    [0..<VGA_WIDTH] b1
      in t\<lparr>terminal_buffer := b2\<rparr>)"

text \<open>
  \<open>terminal_putchar\<close>. The backspace branch returns early at the top-left corner,
  before the call of \<open>terminal_update_cursor\<close> that ends every other path.
\<close>

definition terminal_putchar :: "uint8_t \<Rightarrow> terminal \<Rightarrow> terminal" where
  "terminal_putchar c t =
     (if c = 0x0A then
        (let t1 = t\<lparr>terminal_column := 0\<rparr>;
             t2 = t1\<lparr>terminal_row := terminal_row t1 + 1\<rparr>;
             t3 = (if terminal_row t2 = VGA_HEIGHT
                   then (terminal_scroll t2)\<lparr>terminal_row := VGA_HEIGHT - 1\<rparr> else t2)
         in terminal_update_cursor (terminal_column t3) (terminal_row t3) t3)
      else if c = 0x09 then
        (let t1 = t\<lparr>terminal_column := (terminal_column t + 4) AND NOT 3\<rparr>;
             t4 = (if terminal_column t1 \<ge> VGA_WIDTH then
                     (let t2 = t1\<lparr>terminal_column := 0\<rparr>;
                          t3 = t2\<lparr>terminal_row := terminal_row t2 + 1\<rparr>
                      in if terminal_row t3 = VGA_HEIGHT
                         then (terminal_scroll t3)\<lparr>terminal_row := VGA_HEIGHT - 1\<rparr> else t3)
                   else t1)
         in terminal_update_cursor (terminal_column t4) (terminal_row t4) t4)
      else if c = 0x08 then
        (if terminal_row t = 0 \<and> terminal_column t = 0 then t
         else
           (let t3 = (if terminal_column t > 0 then
                        (let t1 = t\<lparr>terminal_column := terminal_column t - 1\<rparr>;
                             index = terminal_row t1 * VGA_WIDTH + terminal_column t1
                         in t1\<lparr>terminal_buffer := (terminal_buffer t1)
                                   (cell_of_index index := vga_entry 0x20 (terminal_color t1))\<rparr>)
                      else
                        (let t1 = t\<lparr>terminal_row := terminal_row t - 1\<rparr>;
                             t2 = t1\<lparr>terminal_column := VGA_WIDTH\<rparr>;
                             index = terminal_row t2 * VGA_WIDTH + terminal_column t2
                         in t2\<lparr>terminal_buffer := (terminal_buffer t2)
                                   (cell_of_index index := vga_entry 0x20 (terminal_color t2))\<rparr>))
            in terminal_update_cursor (terminal_column t3) (terminal_row t3) t3))
      else
        (let index = terminal_row t * VGA_WIDTH + terminal_column t;
             t1 = t\<lparr>terminal_buffer := (terminal_buffer t)
                       (cell_of_index index := vga_entry c (terminal_color t))\<rparr>;
             t2 = t1\<lparr>terminal_column := terminal_column t1 + 1\<rparr>;
             t5 = (if terminal_column t2 = VGA_WIDTH then
                     (let t3 = t2\<lparr>terminal_column := 0\<rparr>;
                          t4 = t3\<lparr>terminal_row := terminal_row t3 + 1\<rparr>
                      in if terminal_row t4 = VGA_HEIGHT
                         then (terminal_scroll t4)\<lparr>terminal_row := VGA_HEIGHT - 1\<rparr> else t4)
                   else t2)
         in terminal_update_cursor (terminal_column t5) (terminal_row t5) t5))"

text \<open>\<open>terminal_write\<close> puts the first \<open>size\<close> bytes of \<open>data\<close>, in order; the
  argument is that list of bytes.\<close>

fun terminal_write :: "uint8_t list \<Rightarrow> terminal \<Rightarrow> terminal" where
  "terminal_write [] t = t"
| "terminal_write (c # data) t = terminal_write data (terminal_putchar c t)"

text \<open>\<open>strlen\<close> counts the bytes before the first zero byte.\<close>

definition strlen :: "uint8_t list \<Rightarrow> nat" where
  "strlen str = length (takeWhile (\<lambda>c. c \<noteq> 0) str)"

definition terminal_writestring :: "uint8_t list \<Rightarrow> terminal \<Rightarrow> terminal" where
  "terminal_writestring data t = terminal_write (take (strlen data) data) t"

text \<open>The machine as the boot stub hands it over: the statics are zero, nothing
  has been sent to a port; the display memory is taken as zero.\<close>

definition boot :: terminal where
  "boot = \<lparr>terminal_row = 0, terminal_column = 0, terminal_color = 0,
           terminal_buffer = (\<lambda>_. 0), ports = []\<rparr>"

section \<open>The keyboard loop of \<open>kernel_main\<close>\<close>

text \<open>
  The two locals of \<open>kernel_main\<close> and the terminal. One pass of the endless loop
  handles the scancode that \<open>keyboard_read_scancode\<close> returned; the translation
  \<open>scancode_to_ascii\<close> is only declared in \<open>keyboard.h\<close>, so the loop takes it as
  the argument \<open>to_ascii\<close>. The C expression \<open>is_shift_pressed ^ is_caps_locked\<close> on
  two \<open>bool\<close>s, passed as a \<open>bool\<close>, is true exactly when they differ.
\<close>

record kernel =
  is_shift_pressed :: bool
  is_caps_locked :: bool
  console :: terminal

definition kernel_step :: "(uint8_t \<Rightarrow> bool \<Rightarrow> uint8_t) \<Rightarrow> uint8_t \<Rightarrow> kernel \<Rightarrow> kernel" where
  "kernel_step to_ascii scancode k =
     (if scancode = 0x2A \<or> scancode = 0x36 then k\<lparr>is_shift_pressed := True\<rparr>
      else if scancode = 0xAA \<or> scancode = 0xB6 then k\<lparr>is_shift_pressed := False\<rparr>
      else if scancode = 0x3A then k\<lparr>is_caps_locked := \<not> is_caps_locked k\<rparr>
      else if scancode < 0x80 then
        (let c = to_ascii scancode (is_shift_pressed k \<noteq> is_caps_locked k)
         in if c \<noteq> 0 then k\<lparr>console := terminal_putchar c (console k)\<rparr> else k)
      else k)"

text \<open>The string literal written at start-up, with its newline and terminating zero.\<close>

definition banner :: "uint8_t list" where
  "banner = map (\<lambda>c. of_nat (of_char c)) ''Kernel Booted. Try Shift AND Caps Lock!'' @ [0x0A, 0]"

definition kernel_start :: "terminal \<Rightarrow> kernel" where
  "kernel_start t =
     \<lparr>is_shift_pressed = False, is_caps_locked = False,
      console = terminal_writestring banner (terminal_initialize t)\<rparr>"

text \<open>The loop never ends; its state after the scancodes read so far: \<close>

definition kernel_main :: "(uint8_t \<Rightarrow> bool \<Rightarrow> uint8_t) \<Rightarrow> uint8_t list \<Rightarrow> terminal \<Rightarrow> kernel" where
  "kernel_main to_ascii scancodes t = fold (kernel_step to_ascii) scancodes (kernel_start t)"

text \<open>
  Modelled from the spec: \<open>scancode_to_ascii\<close>, whose source file is not among
  the sources (only the declaration \<open>char scancode_to_ascii(uint8_t scancode,
  bool capital)\<close> and its call are). The specification describes a fixed table from a
  scancode to a pair (lowercase character, uppercase character), zero standing for
  "no character", from which the uppercase member is taken when the flag is set and
  the lowercase member otherwise. The table itself is a parameter.
\<close>

definition scancode_to_ascii :: "(uint8_t \<Rightarrow> uint8_t \<times> uint8_t) \<Rightarrow> uint8_t \<Rightarrow> bool \<Rightarrow> uint8_t" where
  "scancode_to_ascii table scancode capital =
     (if capital then snd (table scancode) else fst (table scancode))"

text \<open>A table with the single entry of the key A, and concrete states, for examples.\<close>

definition key_a_table :: "uint8_t \<Rightarrow> uint8_t \<times> uint8_t" where
  "key_a_table s = (if s = 0x1E then (0x61, 0x41) else (0, 0))"

definition numbered :: terminal where
  "numbered = \<lparr>terminal_row = 3, terminal_column = 5, terminal_color = 0x07,
               terminal_buffer = (\<lambda>i. of_nat i), ports = []\<rparr>"

text \<open>
  Reachable states: two full rows of \<open>X\<close> written after initialisation, which
  leaves the cursor at the start of the third row; a newline followed by a backspace;
  and twenty-four newlines and a backspace followed by eighty, and by eighty-one,
  letters.
\<close>

definition two_rows_written :: terminal where
  "two_rows_written = terminal_write (replicate 160 0x58) (terminal_initialize boot)"

definition newline_then_backspace :: terminal where
  "newline_then_backspace = terminal_write [0x0A, 0x08] (terminal_initialize boot)"

definition last_row_far_right :: terminal where
  "last_row_far_right =
     terminal_write (replicate 80 0x61)
       (terminal_putchar 0x08 (terminal_write (replicate 24 0x0A) (terminal_initialize boot)))"

definition last_row_overrun :: terminal where
  "last_row_overrun =
     terminal_write (replicate 81 0x61)
       (terminal_putchar 0x08 (terminal_write (replicate 24 0x0A) (terminal_initialize boot)))"

section \<open>The loops over the grid\<close>

lemma fold_upt_Suc: "fold f [0..<Suc n] b = f n (fold f [0..<n] b)"
  by simp

lemma fold_fill:
  "fold (\<lambda>x b. b(off + x := v)) [0..<n] b i = (if off \<le> i \<and> i < off + n then v else b i)"
  by (induction n) auto

lemma fold_copy_row:
  "off + n \<le> src \<Longrightarrow> fold (\<lambda>x b. b(off + x := b (src + x))) [0..<n] b i
     = (if off \<le> i \<and> i < off + n then b (src + (i - off)) else b i)"
  by (induction n arbitrary: i) auto

lemma fold_copy_rows:
  "fold (\<lambda>y. fold (\<lambda>x b. b(y * w + x := b ((y + 1) * w + x))) [0..<w]) [0..<m] b i
     = (if i < m * w then b (i + w) else b i)"
proof (induction m arbitrary: i)
  case 0
  show ?case by simp
next
  case (Suc m)
  let ?row = "\<lambda>y. fold (\<lambda>x b. b(y * w + x := b ((y + 1) * w + x))) [0..<w]"
  let ?c = "fold ?row [0..<m] b"
  have "fold ?row [0..<Suc m] b i = ?row m ?c i"
    by (simp only: fold_upt_Suc)
  also have "\<dots> = (if m * w \<le> i \<and> i < m * w + w then ?c ((m + 1) * w + (i - m * w)) else ?c i)"
    by (rule fold_copy_row) simp
  also have "\<dots> = (if i < Suc m * w then b (i + w) else b i)"
    unfolding Suc by (auto simp add: add.commute)
  finally show ?case .
qed

lemma fold_fill_rows:
  "fold (\<lambda>y. fold (\<lambda>x b. b(y * w + x := v)) [0..<w]) [0..<m] b i
     = (if i < m * w then v else b i)"
proof (induction m arbitrary: i)
  case 0
  show ?case by simp
next
  case (Suc m)
  let ?row = "\<lambda>y. fold (\<lambda>x b. b(y * w + x := v)) [0..<w]"
  let ?c = "fold ?row [0..<m] b"
  have "fold ?row [0..<Suc m] b i = ?row m ?c i"
    by (simp only: fold_upt_Suc)
  also have "\<dots> = (if m * w \<le> i \<and> i < m * w + w then v else ?c i)"
    by (rule fold_fill)
  also have "\<dots> = (if i < Suc m * w then v else b i)"
    unfolding Suc by auto
  finally show ?case .
qed

lemma buffer_of_update:
  "terminal_buffer (t\<lparr>terminal_buffer := b\<rparr>) = b"
  "terminal_buffer (t\<lparr>terminal_row := r\<rparr>) = terminal_buffer t"
  "terminal_buffer (t\<lparr>terminal_column := c\<rparr>) = terminal_buffer t"
  "terminal_buffer (t\<lparr>terminal_color := a\<rparr>) = terminal_buffer t"
  "terminal_color (t\<lparr>terminal_color := a\<rparr>) = a"
  by simp_all

lemma terminal_scroll_buffer:
  "terminal_buffer (terminal_scroll t) i =
     (if i < 1920 then terminal_buffer t (i + 80)
      else if i < 2000 then vga_entry 0x20 (terminal_color t)
      else terminal_buffer t i)"
proof -
  have "terminal_buffer (terminal_scroll t) i =
     (if (VGA_HEIGHT - 1) * VGA_WIDTH \<le> i \<and> i < (VGA_HEIGHT - 1) * VGA_WIDTH + VGA_WIDTH
      then vga_entry 0x20 (terminal_color t)
      else if i < (VGA_HEIGHT - 1) * VGA_WIDTH then terminal_buffer t (i + VGA_WIDTH)
      else terminal_buffer t i)"
    by (simp only: terminal_scroll_def Let_def buffer_of_update fold_fill fold_copy_rows)
  then show ?thesis
    by (simp add: VGA_WIDTH_def VGA_HEIGHT_def)
qed

lemma terminal_scroll_fields [simp]:
  "terminal_row (terminal_scroll t) = terminal_row t"
  "terminal_column (terminal_scroll t) = terminal_column t"
  "terminal_color (terminal_scroll t) = terminal_color t"
  "ports (terminal_scroll t) = ports t"
  by (simp_all add: terminal_scroll_def Let_def)

lemma terminal_update_cursor_fields [simp]:
  "terminal_row (terminal_update_cursor x y t) = terminal_row t"
  "terminal_column (terminal_update_cursor x y t) = terminal_column t"
  "terminal_color (terminal_update_cursor x y t) = terminal_color t"
  "terminal_buffer (terminal_update_cursor x y t) = terminal_buffer t"
  by (simp_all add: terminal_update_cursor_def outb_def Let_def)

lemma terminal_initialize_fields:
  "terminal_row (terminal_initialize t) = 0"
  "terminal_column (terminal_initialize t) = 0"
  "terminal_color (terminal_initialize t) = 0x8C"
  by (simp_all add: terminal_initialize_def Let_def vga_entry_color_def)

lemma terminal_initialize_buffer:
  "terminal_buffer (terminal_initialize t) i =
     (if i < 2000 then 0x8C20 else terminal_buffer t i)"
proof -
  have "terminal_buffer (terminal_initialize t) i =
     (if i < VGA_HEIGHT * VGA_WIDTH
      then vga_entry 0x20 (vga_entry_color VGA_COLOR_LIGHT_RED VGA_COLOR_DARK_GREY)
      else terminal_buffer t i)"
    by (simp only: terminal_initialize_def Let_def buffer_of_update fold_fill_rows
        terminal_update_cursor_fields)
  then show ?thesis
    by (simp add: VGA_WIDTH_def VGA_HEIGHT_def vga_entry_def vga_entry_color_def)
qed

section \<open>The branches of \<open>terminal_putchar\<close>\<close>

lemma terminal_scroll_buffer_cong:
  "terminal_buffer (terminal_scroll (t\<lparr>terminal_row := r\<rparr>)) = terminal_buffer (terminal_scroll t)"
  "terminal_buffer (terminal_scroll (t\<lparr>terminal_column := c\<rparr>)) = terminal_buffer (terminal_scroll t)"
  by (simp_all add: fun_eq_iff terminal_scroll_buffer)

lemma ports_update_cursor:
  "ports (terminal_update_cursor x y t) =
     ports t @ [(0x3D4, 0x0F), (0x3D5, ucast (ucast (y * 80 + x) :: uint16_t)),
                (0x3D4, 0x0E), (0x3D5, ucast (drop_bit 8 (ucast (y * 80 + x) :: uint16_t)))]"
proof -
  have m: "(0xFF :: uint16_t) = mask 8"
    by (simp add: mask_eq_exp_minus_1)
  have lo: "(ucast (p AND 0xFF) :: uint8_t) = ucast p" for p :: uint16_t
    unfolding m by (rule bit_word_eqI) (auto simp add: bit_simps)
  show ?thesis
    by (simp add: terminal_update_cursor_def outb_def Let_def VGA_WIDTH_def lo)
qed

lemma putchar_newline:
  "terminal_column (terminal_putchar 0x0A t) = 0"
  "terminal_row (terminal_putchar 0x0A t) = (if terminal_row t + 1 = 25 then 24 else terminal_row t + 1)"
  "terminal_color (terminal_putchar 0x0A t) = terminal_color t"
  "terminal_buffer (terminal_putchar 0x0A t) =
     (if terminal_row t + 1 = 25 then terminal_buffer (terminal_scroll t) else terminal_buffer t)"
  by (simp_all add: terminal_putchar_def Let_def VGA_HEIGHT_def terminal_scroll_buffer_cong)

lemma putchar_tab:
  "terminal_column (terminal_putchar 0x09 t) =
     (if 80 \<le> (terminal_column t + 4) AND NOT 3 then 0 else (terminal_column t + 4) AND NOT 3)"
  "terminal_row (terminal_putchar 0x09 t) =
     (if 80 \<le> (terminal_column t + 4) AND NOT 3
      then (if terminal_row t + 1 = 25 then 24 else terminal_row t + 1) else terminal_row t)"
  "terminal_color (terminal_putchar 0x09 t) = terminal_color t"
  "terminal_buffer (terminal_putchar 0x09 t) =
     (if 80 \<le> (terminal_column t + 4) AND NOT 3 \<and> terminal_row t + 1 = 25
      then terminal_buffer (terminal_scroll t) else terminal_buffer t)"
  by (simp_all add: terminal_putchar_def Let_def VGA_HEIGHT_def VGA_WIDTH_def terminal_scroll_buffer_cong)

lemma putchar_backspace_origin:
  "terminal_row t = 0 \<Longrightarrow> terminal_column t = 0 \<Longrightarrow> terminal_putchar 0x08 t = t"
  by (simp add: terminal_putchar_def)

lemma putchar_backspace_in_row:
  assumes "terminal_column t \<noteq> 0"
  shows "terminal_column (terminal_putchar 0x08 t) = terminal_column t - 1"
    "terminal_row (terminal_putchar 0x08 t) = terminal_row t"
    "terminal_color (terminal_putchar 0x08 t) = terminal_color t"
    "terminal_buffer (terminal_putchar 0x08 t) =
       (terminal_buffer t)(cell_of_index (terminal_row t * 80 + (terminal_column t - 1))
          := vga_entry 0x20 (terminal_color t))"
  using assms
  by (simp_all add: terminal_putchar_def Let_def VGA_WIDTH_def word_greater_zero_iff)

lemma putchar_backspace_row_start:
  assumes "terminal_column t = 0" "terminal_row t \<noteq> 0"
  shows "terminal_column (terminal_putchar 0x08 t) = 80"
    "terminal_row (terminal_putchar 0x08 t) = terminal_row t - 1"
    "terminal_color (terminal_putchar 0x08 t) = terminal_color t"
    "terminal_buffer (terminal_putchar 0x08 t) =
       (terminal_buffer t)(cell_of_index ((terminal_row t - 1) * 80 + 80)
          := vga_entry 0x20 (terminal_color t))"
  using assms
  by (simp_all add: terminal_putchar_def Let_def VGA_WIDTH_def)

lemma putchar_regular:
  assumes "c \<noteq> 0x0A" "c \<noteq> 0x09" "c \<noteq> 0x08"
  shows "terminal_column (terminal_putchar c t) =
       (if terminal_column t + 1 = 80 then 0 else terminal_column t + 1)"
    "terminal_row (terminal_putchar c t) =
       (if terminal_column t + 1 = 80
        then (if terminal_row t + 1 = 25 then 24 else terminal_row t + 1) else terminal_row t)"
    "terminal_color (terminal_putchar c t) = terminal_color t"
    "terminal_buffer (terminal_putchar c t) =
       (let b = (terminal_buffer t)(cell_of_index (terminal_row t * 80 + terminal_column t)
                   := vga_entry c (terminal_color t))
        in if terminal_column t + 1 = 80 \<and> terminal_row t + 1 = 25
           then terminal_buffer (terminal_scroll (t\<lparr>terminal_buffer := b\<rparr>)) else b)"
  using assms
  by (simp_all add: terminal_putchar_def Let_def VGA_HEIGHT_def VGA_WIDTH_def
      fun_eq_iff terminal_scroll_buffer)

lemma ports_putchar:
  assumes "\<not> (c = 0x08 \<and> terminal_row t = 0 \<and> terminal_column t = 0)"
  shows "ports (terminal_putchar c t) =
     ports t @ ports (terminal_update_cursor (terminal_column (terminal_putchar c t))
                       (terminal_row (terminal_putchar c t)) (t\<lparr>ports := []\<rparr>))"
  using assms
  by (auto simp add: terminal_putchar_def Let_def ports_update_cursor)

section \<open>Runs of ordinary characters\<close>

lemma cell_of_index_small:
  assumes "unat index < 2 ^ 31"
  shows "cell_of_index index = unat index"
proof -
  have "unat (2 * index) = 2 * unat index"
    using assms by (simp add: unat_word_ariths)
  then show ?thesis
    by (simp add: cell_of_index_def)
qed

lemma unat_cursor_index:
  fixes r c :: size_t
  assumes "unat r \<le> 25" "unat c \<le> 160"
  shows "unat (r * 80 + c) = unat r * 80 + unat c"
proof -
  have "unat (r * 80) = unat r * 80"
    using assms by (simp add: unat_word_ariths)
  then show ?thesis
    using assms by (simp add: unat_word_ariths)
qed

lemma cell_of_cursor_index:
  fixes r c :: size_t
  assumes "unat r \<le> 25" "unat c \<le> 160"
  shows "cell_of_index (r * 80 + c) = unat r * 80 + unat c"
proof -
  have i: "unat (r * 80 + c) = unat r * 80 + unat c"
    using assms by (rule unat_cursor_index)
  have "unat r * 80 + unat c < 2 ^ 31"
    using assms by simp
  then have "cell_of_index (r * 80 + c) = unat (r * 80 + c)"
    unfolding i [symmetric] by (rule cell_of_index_small)
  then show ?thesis
    by (simp only: i)
qed

lemma unat_succ_small:
  fixes w :: size_t
  assumes "unat w \<le> 1000"
  shows "unat (w + 1) = unat w + 1"
  using assms by (simp add: unat_word_ariths)

lemma div80_bound: "n < 2000 \<Longrightarrow> n div 80 < (25::nat)"
  by (rule less_mult_imp_div_less) simp

lemma last_cell: "n mod 80 = 79 \<Longrightarrow> n div 80 = (24::nat) \<Longrightarrow> n = 1999"
proof -
  assume b: "n mod 80 = 79" "n div 80 = (24::nat)"
  have "n = n div 80 * 80 + n mod 80" by simp
  then show "n = 1999" using b by simp
qed

lemma succ_div80: "Suc n div 80 = (if n mod 80 = 79 then n div 80 + 1 else n div (80::nat))"
proof -
  have "Suc n div 80 = (if Suc n mod 80 = 0 then Suc (n div 80) else n div 80)"
    by (simp add: Suc_div_eq_add3_div div_Suc)
  moreover have "Suc n mod 80 = 0 \<longleftrightarrow> n mod 80 = 79"
    by (simp add: mod_Suc)
  ultimately show ?thesis by simp
qed

lemma succ_mod80: "Suc n mod 80 = (if n mod 80 = 79 then 0 else n mod (80::nat) + 1)"
  by (simp add: mod_Suc)

lemma regular_step:
  assumes c: "c \<noteq> 0x0A" "c \<noteq> 0x09" "c \<noteq> 0x08"
    and pos: "unat (terminal_row t) = n div 80" "unat (terminal_column t) = n mod 80"
    and n: "n + 1 < 2000"
  shows "unat (terminal_row (terminal_putchar c t)) = (n + 1) div 80"
    and "unat (terminal_column (terminal_putchar c t)) = (n + 1) mod 80"
    and "terminal_buffer (terminal_putchar c t) = (terminal_buffer t)(n := vga_entry c (terminal_color t))"
proof -
  have "n div 80 < 25" using n by (intro div80_bound) simp
  then have rb: "unat (terminal_row t) \<le> 24" unfolding pos by simp
  have "n mod 80 < 80" by simp
  then have cb: "unat (terminal_column t) \<le> 79" unfolding pos by simp
  have "cell_of_index (terminal_row t * 80 + terminal_column t)
      = unat (terminal_row t) * 80 + unat (terminal_column t)"
    using rb cb by (intro cell_of_cursor_index) simp_all
  then have idx: "cell_of_index (terminal_row t * 80 + terminal_column t) = n"
    unfolding pos by simp
  have c1: "unat (terminal_column t + 1) = unat (terminal_column t) + 1"
    using cb by (intro unat_succ_small) simp
  have r1: "unat (terminal_row t + 1) = unat (terminal_row t) + 1"
    using rb by (intro unat_succ_small) simp
  have ceq: "terminal_column t + 1 = 80 \<longleftrightarrow> n mod 80 = 79"
    by (simp add: word_unat_eq_iff c1 pos)
  have req: "terminal_row t + 1 = 25 \<longleftrightarrow> n div 80 = 24"
    by (simp add: word_unat_eq_iff r1 pos)
  have noscroll: "\<not> (n mod 80 = 79 \<and> n div 80 = 24)"
    using n last_cell [of n] by auto
  show "unat (terminal_row (terminal_putchar c t)) = (n + 1) div 80"
    using noscroll by (simp add: putchar_regular c ceq req r1 pos succ_div80)
  show "unat (terminal_column (terminal_putchar c t)) = (n + 1) mod 80"
    by (simp add: putchar_regular c ceq c1 succ_mod80 pos)
  show "terminal_buffer (terminal_putchar c t) = (terminal_buffer t)(n := vga_entry c (terminal_color t))"
    using noscroll by (auto simp add: putchar_regular c ceq req idx Let_def)
qed

lemma regular_run:
  assumes "\<forall>c\<in>set cs. c \<noteq> 0x0A \<and> c \<noteq> 0x09 \<and> c \<noteq> 0x08"
    and "unat (terminal_row t) = n div 80" "unat (terminal_column t) = n mod 80"
    and "n + length cs < 2000"
  shows "unat (terminal_row (terminal_write cs t)) = (n + length cs) div 80
       \<and> unat (terminal_column (terminal_write cs t)) = (n + length cs) mod 80
       \<and> terminal_color (terminal_write cs t) = terminal_color t
       \<and> (\<forall>i. terminal_buffer (terminal_write cs t) i =
             (if n \<le> i \<and> i < n + length cs then vga_entry (cs ! (i - n)) (terminal_color t)
              else terminal_buffer t i))"
  using assms
proof (induction cs arbitrary: t n)
  case Nil
  then show ?case by auto
next
  case (Cons c cs)
  let ?t = "terminal_putchar c t"
  have c: "c \<noteq> 0x0A" "c \<noteq> 0x09" "c \<noteq> 0x08" using Cons.prems(1) by simp_all
  have n1: "n + 1 < 2000" using Cons.prems(4) by simp
  note st = regular_step [OF c Cons.prems(2,3) n1]
  have col: "terminal_color ?t = terminal_color t"
    by (simp add: putchar_regular c)
  have len: "n + 1 + length cs < 2000" using Cons.prems(4) by simp
  have rest: "\<forall>c\<in>set cs. c \<noteq> 0x0A \<and> c \<noteq> 0x09 \<and> c \<noteq> 0x08"
    using Cons.prems(1) by simp
  note ih = Cons.IH [OF rest st(1) st(2) len]
  have e: "n + 1 + length cs = n + length (c # cs)" by simp
  show ?case
    unfolding terminal_write.simps
  proof (intro conjI allI)
    show "unat (terminal_row (terminal_write cs ?t)) = (n + length (c # cs)) div 80"
      using ih unfolding e by blast
    show "unat (terminal_column (terminal_write cs ?t)) = (n + length (c # cs)) mod 80"
      using ih unfolding e by blast
    show "terminal_color (terminal_write cs ?t) = terminal_color t"
      using ih col by simp
    fix i
    have "terminal_buffer (terminal_write cs ?t) i =
        (if n + 1 \<le> i \<and> i < n + 1 + length cs
         then vga_entry (cs ! (i - (n + 1))) (terminal_color ?t) else terminal_buffer ?t i)"
      using ih by blast
    then show "terminal_buffer (terminal_write cs ?t) i =
        (if n \<le> i \<and> i < n + length (c # cs)
         then vga_entry ((c # cs) ! (i - n)) (terminal_color t) else terminal_buffer t i)"
      by (auto simp add: col st(3) nth_Cons')
  qed
qed

section \<open>Scrolling\<close>

text \<open>
  Claim C6. After \<open>terminal_scroll\<close>, from any state, row \<open>y\<close> of the grid holds what
  row \<open>y + 1\<close> held, for every \<open>y\<close> below the last row; every cell of the last row
  is a space packed with the colour current at the call; and the cursor row, the
  cursor column and the colour are as before.
\<close>

theorem scroll_shifts_rows_up:
  "(\<forall>y<VGA_HEIGHT - 1. \<forall>x<VGA_WIDTH.
      terminal_buffer (terminal_scroll t) (y * VGA_WIDTH + x) = terminal_buffer t ((y + 1) * VGA_WIDTH + x))
   \<and> (\<forall>x<VGA_WIDTH.
      terminal_buffer (terminal_scroll t) ((VGA_HEIGHT - 1) * VGA_WIDTH + x) = vga_entry 0x20 (terminal_color t))
   \<and> terminal_row (terminal_scroll t) = terminal_row t
   \<and> terminal_column (terminal_scroll t) = terminal_column t
   \<and> terminal_color (terminal_scroll t) = terminal_color t"
proof (intro conjI allI impI)
  fix y x :: nat
  assume "y < VGA_HEIGHT - 1" "x < VGA_WIDTH"
  then have "y * 80 + x < 1920"
    by (simp add: VGA_HEIGHT_def VGA_WIDTH_def)
  then show "terminal_buffer (terminal_scroll t) (y * VGA_WIDTH + x)
      = terminal_buffer t ((y + 1) * VGA_WIDTH + x)"
    by (simp add: terminal_scroll_buffer VGA_WIDTH_def add.commute add.left_commute)
next
  fix x :: nat
  assume "x < VGA_WIDTH"
  then show "terminal_buffer (terminal_scroll t) ((VGA_HEIGHT - 1) * VGA_WIDTH + x)
      = vga_entry 0x20 (terminal_color t)"
    by (simp add: terminal_scroll_buffer VGA_WIDTH_def VGA_HEIGHT_def)
qed simp_all

theorem scroll_shifts_rows_up_witness:
  "(1::nat) < VGA_HEIGHT - 1 \<and> (2::nat) < VGA_WIDTH
   \<and> terminal_buffer (terminal_scroll numbered) 82 = 162
   \<and> terminal_buffer (terminal_scroll numbered) 1922 = 0x0720
   \<and> terminal_row (terminal_scroll numbered) = 3
   \<and> terminal_column (terminal_scroll numbered) = 5"
proof -
  have h: "(1::nat) < VGA_HEIGHT - 1" "(2::nat) < VGA_WIDTH"
    by (simp_all add: VGA_HEIGHT_def VGA_WIDTH_def)
  from scroll_shifts_rows_up [of numbered]
  have "terminal_buffer (terminal_scroll numbered) (1 * VGA_WIDTH + 2)
          = terminal_buffer numbered ((1 + 1) * VGA_WIDTH + 2)"
    and "terminal_buffer (terminal_scroll numbered) ((VGA_HEIGHT - 1) * VGA_WIDTH + 2)
          = vga_entry 0x20 (terminal_color numbered)"
    and "terminal_row (terminal_scroll numbered) = terminal_row numbered"
    and "terminal_column (terminal_scroll numbered) = terminal_column numbered"
    using h by blast+
  then show ?thesis
    using h by (simp add: VGA_HEIGHT_def VGA_WIDTH_def numbered_def vga_entry_def)
qed

section \<open>Hardware cursor\<close>

lemma unat_cursor_position:
  fixes r c :: size_t
  assumes "unat r < 25" "unat c \<le> 80"
  shows "unat (ucast (r * 80 + c) :: uint16_t) = unat r * 80 + unat c"
proof -
  have i: "unat (r * 80 + c) = unat r * 80 + unat c"
    using assms by (intro unat_cursor_index) simp_all
  have "unat r * 80 + unat c < 65536"
    using assms by simp
  then show ?thesis
    by (simp add: unsigned_ucast_eq i take_bit_nat_eq_self)
qed

text \<open>
  Claim C3, as amended. A call of \<open>terminal_putchar\<close> with a backspace while the
  cursor is at row 0, column 0 returns the state as it was and writes to no port. Every
  other call, for every byte and every state, ends with the four port writes of
  \<open>terminal_update_cursor\<close>: index \<open>0x0F\<close> to port \<open>0x3D4\<close>, the low byte of the
  position to \<open>0x3D5\<close>, index \<open>0x0E\<close> to \<open>0x3D4\<close>, the high byte to \<open>0x3D5\<close>, where
  the position is \<open>row * VGA_WIDTH + column\<close> of the state after the call as a 16-bit
  value; that value is the flat position itself whenever the cursor is inside the grid
  (or on the column just past it).
\<close>

theorem putchar_synchronises_cursor:
  "(c = 0x08 \<and> terminal_row t = 0 \<and> terminal_column t = 0 \<longrightarrow> terminal_putchar c t = t)
   \<and> (\<not> (c = 0x08 \<and> terminal_row t = 0 \<and> terminal_column t = 0) \<longrightarrow>
        (let t' = terminal_putchar c t;
             pos = (ucast (terminal_row t' * VGA_WIDTH + terminal_column t') :: uint16_t)
         in ports t' = ports t @ [(0x3D4, 0x0F), (0x3D5, ucast pos),
                                  (0x3D4, 0x0E), (0x3D5, ucast (drop_bit 8 pos))]
            \<and> (unat (terminal_row t') < VGA_HEIGHT \<and> unat (terminal_column t') \<le> VGA_WIDTH \<longrightarrow>
                 unat pos = unat (terminal_row t') * VGA_WIDTH + unat (terminal_column t'))))"
proof (intro conjI impI)
  assume "c = 0x08 \<and> terminal_row t = 0 \<and> terminal_column t = 0"
  then show "terminal_putchar c t = t"
    by (simp add: putchar_backspace_origin)
next
  assume a: "\<not> (c = 0x08 \<and> terminal_row t = 0 \<and> terminal_column t = 0)"
  show "let t' = terminal_putchar c t;
            pos = (ucast (terminal_row t' * VGA_WIDTH + terminal_column t') :: uint16_t)
        in ports t' = ports t @ [(0x3D4, 0x0F), (0x3D5, ucast pos),
                                 (0x3D4, 0x0E), (0x3D5, ucast (drop_bit 8 pos))]
           \<and> (unat (terminal_row t') < VGA_HEIGHT \<and> unat (terminal_column t') \<le> VGA_WIDTH \<longrightarrow>
                unat pos = unat (terminal_row t') * VGA_WIDTH + unat (terminal_column t'))"
    unfolding Let_def
  proof (intro conjI impI)
    show "ports (terminal_putchar c t) = ports t @
        [(0x3D4, 0x0F),
         (0x3D5, ucast (ucast (terminal_row (terminal_putchar c t) * VGA_WIDTH
                        + terminal_column (terminal_putchar c t)) :: uint16_t)),
         (0x3D4, 0x0E),
         (0x3D5, ucast (drop_bit 8 (ucast (terminal_row (terminal_putchar c t) * VGA_WIDTH
                        + terminal_column (terminal_putchar c t)) :: uint16_t)))]"
      by (simp add: ports_putchar [OF a] ports_update_cursor VGA_WIDTH_def)
  next
    assume "unat (terminal_row (terminal_putchar c t)) < VGA_HEIGHT
          \<and> unat (terminal_column (terminal_putchar c t)) \<le> VGA_WIDTH"
    then show "unat (ucast (terminal_row (terminal_putchar c t) * VGA_WIDTH
                      + terminal_column (terminal_putchar c t)) :: uint16_t)
        = unat (terminal_row (terminal_putchar c t)) * VGA_WIDTH
          + unat (terminal_column (terminal_putchar c t))"
      by (simp add: VGA_WIDTH_def VGA_HEIGHT_def unat_cursor_position)
  qed
qed

lemma numbered_fields:
  "terminal_row numbered = 3" "terminal_column numbered = 5" "terminal_color numbered = 0x07"
  "terminal_buffer numbered i = of_nat i" "ports numbered = []"
  by (simp_all add: numbered_def)

theorem putchar_synchronises_cursor_witness:
  "\<not> (0x41 = (0x08 :: uint8_t) \<and> terminal_row numbered = 0 \<and> terminal_column numbered = 0)
   \<and> unat (terminal_row (terminal_putchar 0x41 numbered)) < VGA_HEIGHT
   \<and> unat (terminal_column (terminal_putchar 0x41 numbered)) \<le> VGA_WIDTH
   \<and> ports (terminal_putchar 0x41 numbered)
        = [(0x3D4, 0x0F), (0x3D5, 0xF6), (0x3D4, 0x0E), (0x3D5, 0x00)]
   \<and> terminal_row boot = 0 \<and> terminal_column boot = 0
   \<and> terminal_putchar 0x08 boot = boot"
proof -
  have r: "terminal_row (terminal_putchar 0x41 numbered) = 3"
    and c: "terminal_column (terminal_putchar 0x41 numbered) = 6"
    by (simp_all add: putchar_regular numbered_fields)
  have h: "\<not> (0x41 = (0x08 :: uint8_t) \<and> terminal_row numbered = 0 \<and> terminal_column numbered = 0)"
    by simp
  have b: "(0x08 :: uint8_t) = 0x08 \<and> terminal_row boot = 0 \<and> terminal_column boot = 0"
    by (simp add: boot_def)
  from putchar_synchronises_cursor [of "0x41" numbered] h
  have "ports (terminal_putchar 0x41 numbered) = ports numbered @
      [(0x3D4, 0x0F),
       (0x3D5, ucast (ucast (terminal_row (terminal_putchar 0x41 numbered) * VGA_WIDTH
                      + terminal_column (terminal_putchar 0x41 numbered)) :: uint16_t)),
       (0x3D4, 0x0E),
       (0x3D5, ucast (drop_bit 8 (ucast (terminal_row (terminal_putchar 0x41 numbered) * VGA_WIDTH
                      + terminal_column (terminal_putchar 0x41 numbered)) :: uint16_t)))]"
    unfolding Let_def by blast
  moreover from putchar_synchronises_cursor [of "0x08" boot] b
  have "terminal_putchar 0x08 boot = boot"
    by blast
  ultimately show ?thesis
    using b by (simp add: r c numbered_fields VGA_WIDTH_def VGA_HEIGHT_def)
qed

theorem backspace_at_origin_writes_no_port:
  "terminal_row (terminal_initialize boot) = 0
   \<and> terminal_column (terminal_initialize boot) = 0
   \<and> ports (terminal_putchar 0x08 (terminal_initialize boot)) = ports (terminal_initialize boot)
   \<and> ports (terminal_putchar 0x08 (terminal_initialize boot))
       \<noteq> ports (terminal_update_cursor
                  (terminal_column (terminal_putchar 0x08 (terminal_initialize boot)))
                  (terminal_row (terminal_putchar 0x08 (terminal_initialize boot)))
                  (terminal_initialize boot))"
  by (simp add: terminal_initialize_fields putchar_backspace_origin ports_update_cursor)

section \<open>The keyboard loop\<close>

text \<open>
  Claim C8. The loop starts with both modifier flags false. In any state, one pass of
  the loop on scancode \<open>0x2A\<close> or \<open>0x36\<close> only sets \<open>is_shift_pressed\<close>; on \<open>0xAA\<close> or
  \<open>0xB6\<close> only clears it; on \<open>0x3A\<close> only flips \<open>is_caps_locked\<close>; on \<open>0xBA\<close>, and on
  every scancode from \<open>0x80\<close> up other than \<open>0xAA\<close> and \<open>0xB6\<close>, changes nothing: both
  flags and the whole terminal (grid, cursor, port writes) stay as they were, whatever
  the translation function is.
\<close>

theorem modifier_scancodes:
  "is_shift_pressed (kernel_start t) = False \<and> is_caps_locked (kernel_start t) = False
   \<and> (sc = 0x2A \<or> sc = 0x36 \<longrightarrow> kernel_step to_ascii sc k = k\<lparr>is_shift_pressed := True\<rparr>)
   \<and> (sc = 0xAA \<or> sc = 0xB6 \<longrightarrow> kernel_step to_ascii sc k = k\<lparr>is_shift_pressed := False\<rparr>)
   \<and> kernel_step to_ascii 0x3A k = k\<lparr>is_caps_locked := \<not> is_caps_locked k\<rparr>
   \<and> kernel_step to_ascii 0xBA k = k
   \<and> (0x80 \<le> sc \<and> sc \<noteq> 0xAA \<and> sc \<noteq> 0xB6 \<longrightarrow> kernel_step to_ascii sc k = k)"
proof (intro conjI impI)
  assume a: "0x80 \<le> sc \<and> sc \<noteq> 0xAA \<and> sc \<noteq> 0xB6"
  then have "\<not> sc < 0x80"
    by (simp add: not_less)
  moreover have "sc \<noteq> 0x2A" "sc \<noteq> 0x36" "sc \<noteq> 0x3A"
    using a by auto
  ultimately show "kernel_step to_ascii sc k = k"
    using a by (simp add: kernel_step_def)
qed (auto simp add: kernel_step_def kernel_start_def)

theorem modifier_scancodes_witness:
  "((0x36 :: uint8_t) = 0x2A \<or> (0x36 :: uint8_t) = 0x36)
   \<and> kernel_step (scancode_to_ascii key_a_table) 0x36 (kernel_start boot)
       = (kernel_start boot)\<lparr>is_shift_pressed := True\<rparr>
   \<and> ((0x80 :: uint8_t) \<le> 0x9E \<and> (0x9E :: uint8_t) \<noteq> 0xAA \<and> (0x9E :: uint8_t) \<noteq> 0xB6)
   \<and> kernel_step (scancode_to_ascii key_a_table) 0x9E (kernel_start boot) = kernel_start boot"
  using modifier_scancodes [of boot "0x36" "scancode_to_ascii key_a_table" "kernel_start boot"]
    modifier_scancodes [of boot "0x9E" "scancode_to_ascii key_a_table" "kernel_start boot"]
  by simp

text \<open>
  Claim C9. For every scancode below \<open>0x80\<close> that is not a shift or caps-lock make
  code, one pass of the loop takes the uppercase member of the table entry exactly when
  \<open>is_shift_pressed\<close> and \<open>is_caps_locked\<close> differ, the lowercase member otherwise, and
  puts that character on the terminal unless it is zero. So with both flags true the
  terminal ends as it does with both flags false.
\<close>

theorem decode_uses_xor_of_modifiers:
  assumes "s < 0x80" "s \<noteq> 0x2A" "s \<noteq> 0x36" "s \<noteq> 0x3A"
  shows "kernel_step (scancode_to_ascii table) s k =
      (let c = (if is_shift_pressed k \<noteq> is_caps_locked k then snd (table s) else fst (table s))
       in if c \<noteq> 0 then k\<lparr>console := terminal_putchar c (console k)\<rparr> else k)
    \<and> console (kernel_step (scancode_to_ascii table) s
                 (k\<lparr>is_shift_pressed := True, is_caps_locked := True\<rparr>))
      = console (kernel_step (scancode_to_ascii table) s
                 (k\<lparr>is_shift_pressed := False, is_caps_locked := False\<rparr>))"
proof -
  have "s \<noteq> 0xAA" "s \<noteq> 0xB6"
    using assms(1) by auto
  then show ?thesis
    using assms by (simp add: kernel_step_def scancode_to_ascii_def Let_def)
qed

theorem decode_uses_xor_of_modifiers_witness:
  "(0x1E :: uint8_t) < 0x80 \<and> (0x1E :: uint8_t) \<noteq> 0x2A \<and> (0x1E :: uint8_t) \<noteq> 0x36
   \<and> (0x1E :: uint8_t) \<noteq> 0x3A
   \<and> console (kernel_step (scancode_to_ascii key_a_table) 0x1E
        \<lparr>is_shift_pressed = False, is_caps_locked = False, console = numbered\<rparr>)
      = terminal_putchar 0x61 numbered
   \<and> console (kernel_step (scancode_to_ascii key_a_table) 0x1E
        \<lparr>is_shift_pressed = True, is_caps_locked = False, console = numbered\<rparr>)
      = terminal_putchar 0x41 numbered
   \<and> console (kernel_step (scancode_to_ascii key_a_table) 0x1E
        \<lparr>is_shift_pressed = True, is_caps_locked = True, console = numbered\<rparr>)
      = terminal_putchar 0x61 numbered"
proof -
  have h: "(0x1E :: uint8_t) < 0x80" "(0x1E :: uint8_t) \<noteq> 0x2A" "(0x1E :: uint8_t) \<noteq> 0x36"
    "(0x1E :: uint8_t) \<noteq> 0x3A"
    by simp_all
  have e: "key_a_table 0x1E = (0x61, 0x41)"
    by (simp add: key_a_table_def)
  note step = decode_uses_xor_of_modifiers [OF h, of key_a_table, THEN conjunct1]
  have 1: "console (kernel_step (scancode_to_ascii key_a_table) 0x1E
        \<lparr>is_shift_pressed = False, is_caps_locked = False, console = numbered\<rparr>)
      = terminal_putchar 0x61 numbered"
    by (simp only: step) (simp add: e)
  have 2: "console (kernel_step (scancode_to_ascii key_a_table) 0x1E
        \<lparr>is_shift_pressed = True, is_caps_locked = False, console = numbered\<rparr>)
      = terminal_putchar 0x41 numbered"
    by (simp only: step) (simp add: e)
  have 3: "console (kernel_step (scancode_to_ascii key_a_table) 0x1E
        \<lparr>is_shift_pressed = True, is_caps_locked = True, console = numbered\<rparr>)
      = terminal_putchar 0x61 numbered"
    by (simp only: step) (simp add: e)
  from h 1 2 3 show ?thesis
    by blast
qed

section \<open>Tab stops\<close>

lemma and_minus_4:
  fixes w :: size_t
  shows "w AND - 4 = push_bit 2 (drop_bit 2 w)"
proof -
  have "w AND NOT (mask 2) = push_bit 2 (drop_bit 2 w)"
  proof (rule bit_word_eqI)
    fix n
    assume n: "n < LENGTH(32)"
    show "bit (w AND NOT (mask 2)) n = bit (push_bit 2 (drop_bit 2 w)) n"
    proof (cases "2 \<le> n")
      case True
      then obtain k where k: "n = k + 2"
        by (metis le_add_diff_inverse2)
      show ?thesis
        using n unfolding k by (simp add: bit_simps)
    next
      case False
      then show ?thesis
        by (simp add: bit_simps)
    qed
  qed
  moreover have "(- 4 :: size_t) = NOT (mask 2)"
    by (simp add: mask_eq_exp_minus_1)
  ultimately show ?thesis
    by (simp only:)
qed

lemma unat_and_minus_4:
  fixes w :: size_t
  shows "unat (w AND - 4) = 4 * (unat w div 4)"
proof -
  have "4 * (unat w div 4) \<le> unat w"
    by simp
  moreover have "unat w < 2 ^ 32"
    using unsigned_less [of w, where ?'a = nat] by simp
  ultimately have "4 * (unat w div 4) < 2 ^ 32"
    by (rule le_less_trans)
  then have t: "take_bit 32 (4 * (unat w div 4)) = 4 * (unat w div 4)"
    by (rule take_bit_nat_eq_self)
  have "unat (push_bit 2 (drop_bit 2 w)) = take_bit 32 (4 * (unat w div 4))"
    by (simp only: unsigned_push_bit_eq unat_drop_bit_eq)
      (simp add: push_bit_eq_mult drop_bit_eq_div mult.commute)
  then show ?thesis
    by (simp only: and_minus_4 t)
qed

lemma tab_stop:
  fixes c :: size_t
  assumes "unat c + 4 < 2 ^ 32"
  shows "unat ((c + 4) AND - 4) = 4 * (unat c div 4) + 4"
proof -
  have "unat (c + 4) = unat c + 4"
    using assms by (simp add: unat_word_ariths)
  moreover have "(unat c + 4) div 4 = unat c div 4 + 1"
    using div_add_self2 [of 4 "unat c"] by simp
  ultimately show ?thesis
    by (simp only: unat_and_minus_4) simp
qed

lemma tab_stop_bounds:
  fixes c :: size_t
  assumes "unat c + 4 < 2 ^ 32"
  shows "4 dvd unat ((c + 4) AND - 4)" "unat c < unat ((c + 4) AND - 4)"
    "unat ((c + 4) AND - 4) \<le> unat c + 4"
proof -
  define q r where "q = unat c div 4" and "r = unat c mod 4"
  have n: "unat ((c + 4) AND - 4) = 4 * q + 4"
    unfolding q_def by (rule tab_stop [OF assms])
  have c: "unat c = 4 * q + r"
    unfolding q_def r_def by simp
  have r: "r < 4"
    unfolding r_def by simp
  show "4 dvd unat ((c + 4) AND - 4)"
    unfolding n by simp
  show "unat c < unat ((c + 4) AND - 4)"
    unfolding n c using r by simp
  show "unat ((c + 4) AND - 4) \<le> unat c + 4"
    unfolding n c by simp
qed

text \<open>
  Claim C7. Writing a tab, in any state whose column is at least four below the
  largest \<open>size_t\<close>, computes the column \<open>n = (column + 4) AND NOT 3\<close>: a multiple of 4,
  above the old column and at most four above it, so the next multiple of 4 strictly
  after the old column. If \<open>n\<close> is below \<open>VGA_WIDTH\<close> the cursor moves to column \<open>n\<close> on
  the same row. If \<open>n\<close> reaches or exceeds \<open>VGA_WIDTH\<close> the column becomes 0 and the row
  is incremented, and when the row thereby reaches \<open>VGA_HEIGHT\<close> the screen scrolls and
  the row is pinned to \<open>VGA_HEIGHT - 1\<close>: the cursor then ends where an ordinary
  character written in the last column leaves it. The memory changes only through
  that scroll, and the colour never.
\<close>

theorem tab_advances_to_next_stop:
  assumes "unat (terminal_column t) + 4 < 2 ^ 32"
  shows "let n = (terminal_column t + 4) AND NOT 3; t' = terminal_putchar 0x09 t in
      4 dvd unat n \<and> unat (terminal_column t) < unat n \<and> unat n \<le> unat (terminal_column t) + 4
    \<and> terminal_column t' = (if VGA_WIDTH \<le> n then 0 else n)
    \<and> terminal_row t' =
        (if VGA_WIDTH \<le> n
         then (if terminal_row t + 1 = VGA_HEIGHT then VGA_HEIGHT - 1 else terminal_row t + 1)
         else terminal_row t)
    \<and> terminal_buffer t' =
        (if VGA_WIDTH \<le> n \<and> terminal_row t + 1 = VGA_HEIGHT
         then terminal_buffer (terminal_scroll t) else terminal_buffer t)
    \<and> terminal_color t' = terminal_color t
    \<and> (VGA_WIDTH \<le> n \<longrightarrow>
         (\<forall>c. c \<noteq> 0x0A \<and> c \<noteq> 0x09 \<and> c \<noteq> 0x08 \<longrightarrow>
            terminal_column t'
              = terminal_column (terminal_putchar c (t\<lparr>terminal_column := VGA_WIDTH - 1\<rparr>))
          \<and> terminal_row t'
              = terminal_row (terminal_putchar c (t\<lparr>terminal_column := VGA_WIDTH - 1\<rparr>))))"
proof -
  note b = tab_stop_bounds [OF assms]
  show ?thesis
    unfolding Let_def
  proof (intro conjI impI allI)
    show "4 dvd unat ((terminal_column t + 4) AND NOT 3)"
      using b(1) by simp
    show "unat (terminal_column t) < unat ((terminal_column t + 4) AND NOT 3)"
      using b(2) by simp
    show "unat ((terminal_column t + 4) AND NOT 3) \<le> unat (terminal_column t) + 4"
      using b(3) by simp
  next
    fix c :: uint8_t
    assume w: "VGA_WIDTH \<le> (terminal_column t + 4) AND NOT 3"
      and "c \<noteq> 0x0A \<and> c \<noteq> 0x09 \<and> c \<noteq> 0x08"
    then have c: "c \<noteq> 0x0A" "c \<noteq> 0x09" "c \<noteq> 0x08"
      by simp_all
    show "terminal_column (terminal_putchar 0x09 t)
        = terminal_column (terminal_putchar c (t\<lparr>terminal_column := VGA_WIDTH - 1\<rparr>))"
      using w by (simp add: putchar_tab putchar_regular c VGA_WIDTH_def)
    show "terminal_row (terminal_putchar 0x09 t)
        = terminal_row (terminal_putchar c (t\<lparr>terminal_column := VGA_WIDTH - 1\<rparr>))"
      using w by (simp add: putchar_tab putchar_regular c VGA_WIDTH_def)
  qed (simp_all add: putchar_tab VGA_WIDTH_def VGA_HEIGHT_def)
qed

theorem tab_advances_to_next_stop_witness:
  "unat (terminal_column numbered) + 4 < 2 ^ 32
   \<and> terminal_column numbered = 5 \<and> terminal_column (terminal_putchar 0x09 numbered) = 8
   \<and> terminal_row (terminal_putchar 0x09 numbered) = terminal_row numbered
   \<and> terminal_buffer (terminal_putchar 0x09 numbered) = terminal_buffer numbered
   \<and> unat (terminal_column boot) + 4 < 2 ^ 32
   \<and> terminal_column boot = 0 \<and> terminal_column (terminal_putchar 0x09 boot) = 4"
proof -
  have h: "unat (terminal_column numbered) + 4 < 2 ^ 32"
    by (simp add: numbered_fields)
  have n: "(terminal_column numbered + 4) AND NOT 3 = 8"
    by (simp add: numbered_fields)
  have h0: "unat (terminal_column boot) + 4 < 2 ^ 32"
    by (simp add: boot_def)
  have n0: "(terminal_column boot + 4) AND NOT 3 = 4"
    by (simp add: boot_def)
  from tab_advances_to_next_stop [OF h]
  have "terminal_column (terminal_putchar 0x09 numbered)
          = (if VGA_WIDTH \<le> (8 :: size_t) then 0 else 8)"
    and "terminal_row (terminal_putchar 0x09 numbered) =
        (if VGA_WIDTH \<le> (8 :: size_t)
         then (if terminal_row numbered + 1 = VGA_HEIGHT then VGA_HEIGHT - 1
               else terminal_row numbered + 1)
         else terminal_row numbered)"
    and "terminal_buffer (terminal_putchar 0x09 numbered) =
        (if VGA_WIDTH \<le> (8 :: size_t) \<and> terminal_row numbered + 1 = VGA_HEIGHT
         then terminal_buffer (terminal_scroll numbered) else terminal_buffer numbered)"
    unfolding Let_def n by blast+
  moreover from tab_advances_to_next_stop [OF h0]
  have "terminal_column (terminal_putchar 0x09 boot)
          = (if VGA_WIDTH \<le> (4 :: size_t) then 0 else 4)"
    unfolding Let_def n0 by blast
  ultimately show ?thesis
    using h h0 by (simp add: VGA_WIDTH_def numbered_fields boot_def)
qed

section \<open>Newlines\<close>

lemma newline_row:
  assumes "unat (terminal_row t) < 25"
  shows "unat (terminal_row (terminal_putchar 0x0A t)) = min (unat (terminal_row t) + 1) 24"
proof -
  have r1: "unat (terminal_row t + 1) = unat (terminal_row t) + 1"
    using assms by (intro unat_succ_small) simp
  have "terminal_row t + 1 = 25 \<longleftrightarrow> unat (terminal_row t) = 24"
    by (simp add: word_unat_eq_iff r1)
  then show ?thesis
    using assms by (simp add: putchar_newline r1)
qed

lemma newline_keeps_blank:
  assumes "\<forall>i<2000. terminal_buffer t i = vga_entry 0x20 (terminal_color t)"
  shows "\<forall>i<2000. terminal_buffer (terminal_putchar 0x0A t) i
           = vga_entry 0x20 (terminal_color (terminal_putchar 0x0A t))"
  using assms by (simp add: putchar_newline terminal_scroll_buffer)

lemma newline_run:
  assumes "unat (terminal_row t) < 25"
    and "\<forall>i<2000. terminal_buffer t i = vga_entry 0x20 (terminal_color t)"
  shows "unat (terminal_row (terminal_write (replicate k 0x0A) t)) = min (unat (terminal_row t) + k) 24
    \<and> terminal_color (terminal_write (replicate k 0x0A) t) = terminal_color t
    \<and> (\<forall>i<2000. terminal_buffer (terminal_write (replicate k 0x0A) t) i
           = vga_entry 0x20 (terminal_color (terminal_write (replicate k 0x0A) t)))"
  using assms
proof (induction k arbitrary: t)
  case 0
  then show ?case by simp
next
  case (Suc k)
  let ?t = "terminal_putchar 0x0A t"
  have r: "unat (terminal_row ?t) = min (unat (terminal_row t) + 1) 24"
    using Suc.prems(1) by (rule newline_row)
  then have r': "unat (terminal_row ?t) < 25"
    by simp
  have b: "\<forall>i<2000. terminal_buffer ?t i = vga_entry 0x20 (terminal_color ?t)"
    using Suc.prems(2) by (rule newline_keeps_blank)
  note ih = Suc.IH [OF r' b]
  have "min (min (unat (terminal_row t) + 1) 24 + k) 24 = min (unat (terminal_row t) + Suc k) 24"
    by simp
  then show ?case
    using ih unfolding r by (simp add: putchar_newline)
qed

lemma initialize_blank:
  "\<forall>i<2000. terminal_buffer (terminal_initialize t) i
      = vga_entry 0x20 (terminal_color (terminal_initialize t))"
  by (simp add: terminal_initialize_buffer terminal_initialize_fields vga_entry_def)

text \<open>
  Claim C5. Writing a newline, in any state, sets the column to 0 and increments the
  row; if the row thereby equals \<open>VGA_HEIGHT\<close> the screen is scrolled and the row is set
  to \<open>VGA_HEIGHT - 1\<close>, otherwise the memory is untouched. After \<open>terminal_initialize\<close>,
  any number \<open>k\<close> of newlines leaves the row at the smaller of \<open>k\<close> and
  \<open>VGA_HEIGHT - 1\<close>, so never out of bounds; \<open>VGA_HEIGHT\<close> newlines leave it at
  \<open>VGA_HEIGHT - 1\<close> with every cell of the first \<open>VGA_HEIGHT - 1\<close> rows a space in the
  current colour.
\<close>

theorem newline_moves_down_and_scrolls:
  "terminal_column (terminal_putchar 0x0A t) = 0
   \<and> terminal_row (terminal_putchar 0x0A t)
       = (if terminal_row t + 1 = VGA_HEIGHT then VGA_HEIGHT - 1 else terminal_row t + 1)
   \<and> terminal_buffer (terminal_putchar 0x0A t)
       = (if terminal_row t + 1 = VGA_HEIGHT then terminal_buffer (terminal_scroll t)
          else terminal_buffer t)
   \<and> unat (terminal_row (terminal_write (replicate k 0x0A) (terminal_initialize t0)))
       = min k (VGA_HEIGHT - 1)
   \<and> terminal_row (terminal_write (replicate VGA_HEIGHT 0x0A) (terminal_initialize t0))
       = VGA_HEIGHT - 1
   \<and> (\<forall>i < (VGA_HEIGHT - 1) * VGA_WIDTH.
         terminal_buffer (terminal_write (replicate VGA_HEIGHT 0x0A) (terminal_initialize t0)) i
         = vga_entry 0x20
             (terminal_color (terminal_write (replicate VGA_HEIGHT 0x0A) (terminal_initialize t0))))"
proof -
  have r0: "unat (terminal_row (terminal_initialize t0)) < 25"
    by (simp add: terminal_initialize_fields)
  have any: "unat (terminal_row (terminal_write (replicate k 0x0A) (terminal_initialize t0)))
      = min k 24"
    using newline_run [OF r0 initialize_blank, of k] by (simp add: terminal_initialize_fields)
  note run = newline_run [OF r0 initialize_blank, of 25]
  have "unat (terminal_row (terminal_write (replicate 25 0x0A) (terminal_initialize t0))) = 24"
    using run by (simp add: terminal_initialize_fields)
  then have row: "terminal_row (terminal_write (replicate 25 0x0A) (terminal_initialize t0)) = 24"
    by (simp add: word_unat_eq_iff)
  have cells: "\<forall>i<2000. terminal_buffer (terminal_write (replicate 25 0x0A) (terminal_initialize t0)) i
      = vga_entry 0x20 (terminal_color (terminal_write (replicate 25 0x0A) (terminal_initialize t0)))"
    using run by blast
  show ?thesis
    using row cells any by (simp add: putchar_newline VGA_HEIGHT_def VGA_WIDTH_def)
qed

theorem newline_moves_down_and_scrolls_witness:
  "(7 :: nat) < (VGA_HEIGHT - 1) * VGA_WIDTH
   \<and> terminal_buffer (terminal_write (replicate VGA_HEIGHT 0x0A) (terminal_initialize boot)) 7
       = 0x8C20
   \<and> terminal_row (terminal_write (replicate VGA_HEIGHT 0x0A) (terminal_initialize boot)) = 24
   \<and> unat (terminal_row (terminal_write (replicate 30 0x0A) (terminal_initialize boot))) = 24
   \<and> terminal_column (terminal_putchar 0x0A numbered) = 0
   \<and> terminal_row (terminal_putchar 0x0A numbered) = 4"
proof -
  have h: "(7 :: nat) < (VGA_HEIGHT - 1) * VGA_WIDTH"
    by (simp add: VGA_HEIGHT_def VGA_WIDTH_def)
  have "unat (terminal_row (terminal_initialize boot)) < 25"
    by (simp add: terminal_initialize_fields)
  from newline_run [OF this initialize_blank, of 25]
  have c: "terminal_color (terminal_write (replicate 25 0x0A) (terminal_initialize boot)) = 0x8C"
    by (simp add: terminal_initialize_fields)
  from newline_moves_down_and_scrolls [of numbered 30 boot] h
  have "unat (terminal_row (terminal_write (replicate 30 0x0A) (terminal_initialize boot)))
       = min 30 (VGA_HEIGHT - 1)"
    and "terminal_buffer (terminal_write (replicate VGA_HEIGHT 0x0A) (terminal_initialize boot)) 7
       = vga_entry 0x20
           (terminal_color (terminal_write (replicate VGA_HEIGHT 0x0A) (terminal_initialize boot)))"
    and "terminal_row (terminal_write (replicate VGA_HEIGHT 0x0A) (terminal_initialize boot))
       = VGA_HEIGHT - 1"
    and "terminal_column (terminal_putchar 0x0A numbered) = 0"
    and "terminal_row (terminal_putchar 0x0A numbered)
       = (if terminal_row numbered + 1 = VGA_HEIGHT then VGA_HEIGHT - 1 else terminal_row numbered + 1)"
    by blast+
  then show ?thesis
    using h by (simp add: VGA_HEIGHT_def c vga_entry_def numbered_fields)
qed

section \<open>Printable text after initialisation\<close>

text \<open>
  Claim C4. For every list of fewer than \<open>VGA_WIDTH * VGA_HEIGHT\<close> bytes, none of them
  newline, tab or backspace, writing the list after \<open>terminal_initialize\<close> leaves, for
  each \<open>i\<close> below its length, the cell of column \<open>i mod VGA_WIDTH\<close> and row
  \<open>i div VGA_WIDTH\<close> equal to the \<open>i\<close>-th byte packed with the colour, and leaves the
  cursor at column \<open>n mod VGA_WIDTH\<close>, row \<open>n div VGA_WIDTH\<close> for the length \<open>n\<close>; the
  colour is the one set by the initialisation.
\<close>

theorem printable_run_fills_cells:
  assumes "length cs < VGA_WIDTH * VGA_HEIGHT"
    and "\<forall>c\<in>set cs. c \<noteq> 0x0A \<and> c \<noteq> 0x09 \<and> c \<noteq> 0x08"
  shows "let t = terminal_write cs (terminal_initialize t0) in
      (\<forall>i<length cs.
          terminal_buffer t ((i div VGA_WIDTH) * VGA_WIDTH + i mod VGA_WIDTH)
            = vga_entry (cs ! i) (terminal_color t))
    \<and> unat (terminal_column t) = length cs mod VGA_WIDTH
    \<and> unat (terminal_row t) = length cs div VGA_WIDTH
    \<and> terminal_color t = terminal_color (terminal_initialize t0)"
proof -
  have r: "unat (terminal_row (terminal_initialize t0)) = 0 div 80"
    and c: "unat (terminal_column (terminal_initialize t0)) = 0 mod 80"
    by (simp_all add: terminal_initialize_fields)
  have n: "0 + length cs < 2000"
    using assms(1) by (simp add: VGA_WIDTH_def VGA_HEIGHT_def)
  note run = regular_run [OF assms(2) r c n]
  have cell: "terminal_buffer (terminal_write cs (terminal_initialize t0)) (i div 80 * 80 + i mod 80)
      = vga_entry (cs ! i) (terminal_color (terminal_write cs (terminal_initialize t0)))"
    if "i < length cs" for i
  proof -
    have "i div 80 * 80 + i mod 80 = i"
      by simp
    then show ?thesis
      using run that by simp
  qed
  show ?thesis
    unfolding Let_def VGA_WIDTH_def
    using run cell by simp
qed

theorem printable_run_fills_cells_witness:
  "length [0x48, 0x69 :: uint8_t] < VGA_WIDTH * VGA_HEIGHT
   \<and> set [0x48, 0x69 :: uint8_t] \<inter> {0x0A, 0x09, 0x08} = {}
   \<and> terminal_buffer (terminal_write [0x48, 0x69] (terminal_initialize boot)) 1 = 0x8C69
   \<and> unat (terminal_column (terminal_write [0x48, 0x69] (terminal_initialize boot))) = 2
   \<and> unat (terminal_row (terminal_write [0x48, 0x69] (terminal_initialize boot))) = 0"
proof -
  have h: "length [0x48, 0x69 :: uint8_t] < VGA_WIDTH * VGA_HEIGHT"
    "\<forall>c\<in>set [0x48, 0x69 :: uint8_t]. c \<noteq> 0x0A \<and> c \<noteq> 0x09 \<and> c \<noteq> 0x08"
    by (simp_all add: VGA_WIDTH_def VGA_HEIGHT_def)
  let ?t = "terminal_write [0x48, 0x69] (terminal_initialize boot)"
  from printable_run_fills_cells [OF h, of boot]
  have a: "\<forall>i<length [0x48, 0x69 :: uint8_t].
          terminal_buffer ?t ((i div VGA_WIDTH) * VGA_WIDTH + i mod VGA_WIDTH)
            = vga_entry ([0x48, 0x69] ! i) (terminal_color ?t)"
    and b: "unat (terminal_column ?t) = length [0x48, 0x69 :: uint8_t] mod VGA_WIDTH"
    and c: "unat (terminal_row ?t) = length [0x48, 0x69 :: uint8_t] div VGA_WIDTH"
    and d: "terminal_color ?t = terminal_color (terminal_initialize boot)"
    unfolding Let_def by blast+
  have l: "(1 :: nat) < length [0x48, 0x69 :: uint8_t]"
    by simp
  from a l have "terminal_buffer ?t ((1 div VGA_WIDTH) * VGA_WIDTH + 1 mod VGA_WIDTH)
            = vga_entry ([0x48, 0x69] ! 1) (terminal_color ?t)"
    by blast
  then have "terminal_buffer ?t 1 = 0x8C69"
    unfolding d by (simp add: terminal_initialize_fields VGA_WIDTH_def vga_entry_def)
  then show ?thesis
    using h b c by (simp add: VGA_WIDTH_def)
qed

section \<open>Backspace at the start of a row\<close>

lemma two_rows_written_fields:
  "terminal_row two_rows_written = 2" "terminal_column two_rows_written = 0"
  "terminal_color two_rows_written = 0x8C"
  "terminal_buffer two_rows_written 159 = 0x8C58"
proof -
  have r: "unat (terminal_row (terminal_initialize boot)) = 0 div 80"
    and c: "unat (terminal_column (terminal_initialize boot)) = 0 mod 80"
    by (simp_all add: terminal_initialize_fields)
  have a: "\<forall>c\<in>set (replicate 160 (0x58 :: uint8_t)). c \<noteq> 0x0A \<and> c \<noteq> 0x09 \<and> c \<noteq> 0x08"
    by simp
  have n: "0 + length (replicate 160 (0x58 :: uint8_t)) < 2000"
    by simp
  note run = regular_run [OF a r c n, folded two_rows_written_def]
  have "unat (terminal_row two_rows_written) = 2"
    using run by simp
  then show "terminal_row two_rows_written = 2"
    by (simp add: word_unat_eq_iff)
  have "unat (terminal_column two_rows_written) = 0"
    using run by simp
  then show "terminal_column two_rows_written = 0"
    by (simp add: word_unat_eq_iff)
  show k: "terminal_color two_rows_written = 0x8C"
    using run by (simp add: terminal_initialize_fields)
  have "terminal_buffer two_rows_written 159 =
      (if 0 \<le> (159 :: nat) \<and> (159 :: nat) < 0 + length (replicate 160 (0x58 :: uint8_t))
       then vga_entry (replicate 160 0x58 ! (159 - 0)) (terminal_color (terminal_initialize boot))
       else terminal_buffer (terminal_initialize boot) 159)"
    using run by blast
  then show "terminal_buffer two_rows_written 159 = 0x8C58"
    by (simp add: terminal_initialize_fields vga_entry_def)
qed

text \<open>
  Claim C1, at the input where the code departs from it. After two full rows of \<open>X\<close>
  the cursor is at row 2, column 0. A backspace there moves the row to 1 and sets the
  column to \<open>VGA_WIDTH\<close>, not \<open>VGA_WIDTH - 1\<close>; the cell of row 1, column
  \<open>VGA_WIDTH - 1\<close> still holds its \<open>X\<close> and is not a blank; the blank went to flat index
  \<open>1 * VGA_WIDTH + VGA_WIDTH\<close>, the first cell of row 2.
\<close>

theorem backspace_at_row_start_sets_column_to_width:
  "terminal_row two_rows_written = 2 \<and> terminal_column two_rows_written = 0
   \<and> terminal_row (terminal_putchar 0x08 two_rows_written) = 1
   \<and> terminal_column (terminal_putchar 0x08 two_rows_written) = VGA_WIDTH
   \<and> terminal_column (terminal_putchar 0x08 two_rows_written) \<noteq> VGA_WIDTH - 1
   \<and> terminal_buffer (terminal_putchar 0x08 two_rows_written) (1 * VGA_WIDTH + (VGA_WIDTH - 1))
       = vga_entry 0x58 (terminal_color two_rows_written)
   \<and> terminal_buffer (terminal_putchar 0x08 two_rows_written) (1 * VGA_WIDTH + (VGA_WIDTH - 1))
       \<noteq> vga_entry 0x20 (terminal_color (terminal_putchar 0x08 two_rows_written))
   \<and> terminal_buffer (terminal_putchar 0x08 two_rows_written) (2 * VGA_WIDTH + 0)
       = vga_entry 0x20 (terminal_color two_rows_written)"
proof -
  have c: "terminal_column two_rows_written = 0" and r: "terminal_row two_rows_written \<noteq> 0"
    by (simp_all add: two_rows_written_fields)
  note b = putchar_backspace_row_start [OF c r]
  show ?thesis
    by (simp add: b two_rows_written_fields VGA_WIDTH_def vga_entry_def
        cell_of_index_def VGA_MEMORY_def)
qed

section \<open>Past the last column\<close>

lemma newline_run_column:
  "terminal_column (terminal_write (replicate (Suc k) 0x0A) t) = 0"
proof (induction k arbitrary: t)
  case 0
  show ?case by (simp add: putchar_newline)
next
  case (Suc k)
  have "terminal_write (replicate (Suc (Suc k)) 0x0A) t
      = terminal_write (replicate (Suc k) 0x0A) (terminal_putchar 0x0A t)"
    by simp
  then show ?case
    by (simp only: Suc)
qed

lemma overrun_step:
  assumes c: "c \<noteq> 0x0A" "c \<noteq> 0x09" "c \<noteq> 0x08"
    and col: "80 \<le> unat (terminal_column t)" "unat (terminal_column t) \<le> 160"
    and row: "unat (terminal_row t) < 25"
  shows "unat (terminal_column (terminal_putchar c t)) = unat (terminal_column t) + 1"
    and "terminal_row (terminal_putchar c t) = terminal_row t"
    and "terminal_color (terminal_putchar c t) = terminal_color t"
    and "terminal_buffer (terminal_putchar c t) =
      (terminal_buffer t)(unat (terminal_row t) * 80 + unat (terminal_column t)
         := vga_entry c (terminal_color t))"
proof -
  have c1: "unat (terminal_column t + 1) = unat (terminal_column t) + 1"
    using col(2) by (intro unat_succ_small) simp
  have ne: "terminal_column t + 1 \<noteq> 80"
    using col(1) by (simp add: word_unat_eq_iff c1)
  have idx: "cell_of_index (terminal_row t * 80 + terminal_column t)
      = unat (terminal_row t) * 80 + unat (terminal_column t)"
    using row col(2) by (intro cell_of_cursor_index) simp_all
  show "unat (terminal_column (terminal_putchar c t)) = unat (terminal_column t) + 1"
    by (simp add: putchar_regular c ne c1)
  show "terminal_row (terminal_putchar c t) = terminal_row t"
    by (simp add: putchar_regular c ne)
  show "terminal_color (terminal_putchar c t) = terminal_color t"
    by (simp add: putchar_regular c)
  show "terminal_buffer (terminal_putchar c t) =
      (terminal_buffer t)(unat (terminal_row t) * 80 + unat (terminal_column t)
         := vga_entry c (terminal_color t))"
    by (simp add: putchar_regular c ne idx Let_def)
qed

lemma overrun_run:
  assumes "\<forall>c\<in>set cs. c \<noteq> 0x0A \<and> c \<noteq> 0x09 \<and> c \<noteq> 0x08"
    and "80 \<le> unat (terminal_column t)" "unat (terminal_column t) + length cs \<le> 161"
    and "unat (terminal_row t) < 25"
  shows "unat (terminal_column (terminal_write cs t)) = unat (terminal_column t) + length cs
    \<and> terminal_row (terminal_write cs t) = terminal_row t
    \<and> terminal_color (terminal_write cs t) = terminal_color t
    \<and> (\<forall>i. terminal_buffer (terminal_write cs t) i =
          (if unat (terminal_row t) * 80 + unat (terminal_column t) \<le> i
              \<and> i < unat (terminal_row t) * 80 + unat (terminal_column t) + length cs
           then vga_entry (cs ! (i - (unat (terminal_row t) * 80 + unat (terminal_column t))))
                  (terminal_color t)
           else terminal_buffer t i))"
  using assms
proof (induction cs arbitrary: t)
  case Nil
  then show ?case by auto
next
  case (Cons c cs)
  let ?t = "terminal_putchar c t"
  have c: "c \<noteq> 0x0A" "c \<noteq> 0x09" "c \<noteq> 0x08"
    using Cons.prems(1) by simp_all
  have le: "unat (terminal_column t) \<le> 160"
    using Cons.prems(3) by simp
  note st = overrun_step [OF c Cons.prems(2) le Cons.prems(4)]
  have rest: "\<forall>c\<in>set cs. c \<noteq> 0x0A \<and> c \<noteq> 0x09 \<and> c \<noteq> 0x08"
    using Cons.prems(1) by simp
  have p2: "80 \<le> unat (terminal_column ?t)"
    using Cons.prems(2) by (simp add: st)
  have p3: "unat (terminal_column ?t) + length cs \<le> 161"
    using Cons.prems(3) by (simp add: st)
  have p4: "unat (terminal_row ?t) < 25"
    using Cons.prems(4) by (simp add: st)
  note ih = Cons.IH [OF rest p2 p3 p4, unfolded st]
  show ?case
    unfolding terminal_write.simps
    using ih by (auto simp add: nth_Cons')
qed

lemma newline_then_backspace_fields:
  "terminal_row newline_then_backspace = 0" "terminal_column newline_then_backspace = 80"
  "terminal_color newline_then_backspace = 0x8C"
proof -
  let ?s = "terminal_putchar 0x0A (terminal_initialize boot)"
  have r: "terminal_row ?s = 1" and c: "terminal_column ?s = 0" and k: "terminal_color ?s = 0x8C"
    by (simp_all add: putchar_newline terminal_initialize_fields)
  have r0: "terminal_row ?s \<noteq> 0"
    by (simp add: r)
  note b = putchar_backspace_row_start [OF c r0]
  have e: "newline_then_backspace = terminal_putchar 0x08 ?s"
    by (simp add: newline_then_backspace_def)
  show "terminal_row newline_then_backspace = 0"
    unfolding e b by (simp add: r)
  show "terminal_column newline_then_backspace = 80"
    unfolding e b by simp
  show "terminal_color newline_then_backspace = 0x8C"
    unfolding e b by (simp add: k)
qed

lemma last_row_overrun_fields:
  "unat (terminal_column last_row_overrun) = 161"
  "terminal_buffer last_row_overrun 2000 = 0x8C61"
proof -
  let ?n = "terminal_write (replicate 24 0x0A) (terminal_initialize boot)"
  let ?b = "terminal_putchar 0x08 ?n"
  have "unat (terminal_row (terminal_initialize boot)) < 25"
    by (simp add: terminal_initialize_fields)
  from newline_run [OF this initialize_blank, of 24]
  have "unat (terminal_row ?n) = 24" and k: "terminal_color ?n = 0x8C"
    by (simp_all add: terminal_initialize_fields)
  then have r: "terminal_row ?n = 24"
    by (simp add: word_unat_eq_iff)
  have c: "terminal_column ?n = 0"
    using newline_run_column [of 23 "terminal_initialize boot"] by simp
  have r0: "terminal_row ?n \<noteq> 0"
    by (simp add: r)
  note b = putchar_backspace_row_start [OF c r0]
  have br: "unat (terminal_row ?b) = 23" and bc: "unat (terminal_column ?b) = 80"
    and bk: "terminal_color ?b = 0x8C"
    unfolding b by (simp_all add: r k)
  have a: "\<forall>c\<in>set (replicate 81 (0x61 :: uint8_t)). c \<noteq> 0x0A \<and> c \<noteq> 0x09 \<and> c \<noteq> 0x08"
    by simp
  have p2: "80 \<le> unat (terminal_column ?b)"
    by (simp add: bc)
  have p3: "unat (terminal_column ?b) + length (replicate 81 (0x61 :: uint8_t)) \<le> 161"
    by (simp add: bc)
  have p4: "unat (terminal_row ?b) < 25"
    by (simp add: br)
  note run = overrun_run [OF a p2 p3 p4, folded last_row_overrun_def, unfolded br bc bk]
  show "unat (terminal_column last_row_overrun) = 161"
    using run by simp
  have "terminal_buffer last_row_overrun 2000 =
      (if 23 * 80 + 80 \<le> (2000 :: nat)
          \<and> (2000 :: nat) < 23 * 80 + 80 + length (replicate 81 (0x61 :: uint8_t))
       then vga_entry (replicate 81 0x61 ! (2000 - (23 * 80 + 80))) 0x8C
       else terminal_buffer ?b 2000)"
    using run by blast
  then show "terminal_buffer last_row_overrun 2000 = 0x8C61"
    by (simp add: vga_entry_def)
qed

text \<open>
  Claim C2, at the inputs where the code departs from it. After initialisation, a
  newline and a backspace leave the cursor at row 0 with the column equal to
  \<open>VGA_WIDTH\<close> at the end of the call. The next ordinary character is then stored at
  flat index \<open>VGA_WIDTH\<close>, the first cell of row 1, while the cursor row is 0, and the
  column becomes \<open>VGA_WIDTH + 1\<close>, above \<open>VGA_WIDTH\<close>. After twenty-four newlines, a
  backspace and eighty-one letters the column is 161 and the last letter has been stored
  at flat index \<open>VGA_WIDTH * VGA_HEIGHT\<close>, outside the grid, where the initialisation had
  left the memory untouched.
\<close>

theorem backspace_breaks_cursor_bounds:
  "terminal_row newline_then_backspace = 0
   \<and> terminal_column newline_then_backspace = VGA_WIDTH
   \<and> terminal_column (terminal_putchar 0x61 newline_then_backspace) = VGA_WIDTH + 1
   \<and> \<not> unat (terminal_column (terminal_putchar 0x61 newline_then_backspace)) \<le> VGA_WIDTH
   \<and> terminal_row (terminal_putchar 0x61 newline_then_backspace) = 0
   \<and> terminal_buffer (terminal_putchar 0x61 newline_then_backspace) (1 * VGA_WIDTH + 0)
       = vga_entry 0x61 (terminal_color newline_then_backspace)
   \<and> unat (terminal_column last_row_overrun) = 2 * VGA_WIDTH + 1
   \<and> terminal_buffer (terminal_initialize boot) (VGA_WIDTH * VGA_HEIGHT) = terminal_buffer boot (VGA_WIDTH * VGA_HEIGHT)
   \<and> terminal_buffer last_row_overrun (VGA_WIDTH * VGA_HEIGHT)
       = vga_entry 0x61 (terminal_color (terminal_initialize boot))
   \<and> terminal_buffer last_row_overrun (VGA_WIDTH * VGA_HEIGHT)
       \<noteq> terminal_buffer (terminal_initialize boot) (VGA_WIDTH * VGA_HEIGHT)"
proof -
  have c: "(0x61 :: uint8_t) \<noteq> 0x0A" "(0x61 :: uint8_t) \<noteq> 0x09" "(0x61 :: uint8_t) \<noteq> 0x08"
    by simp_all
  note p = putchar_regular [OF c, of newline_then_backspace]
  show ?thesis
    by (simp add: p newline_then_backspace_fields last_row_overrun_fields Let_def
        terminal_initialize_buffer terminal_initialize_fields boot_def
        VGA_WIDTH_def VGA_HEIGHT_def vga_entry_def cell_of_index_def VGA_MEMORY_def)
qed

section \<open>A letter past the grid\<close>

lemma last_row_far_right_fields:
  "terminal_row last_row_far_right = 23"
  "terminal_column last_row_far_right = 160"
  "terminal_color last_row_far_right = 0x8C"
  "terminal_buffer last_row_far_right 2000 = 0"
proof -
  let ?n = "terminal_write (replicate 24 0x0A) (terminal_initialize boot)"
  let ?b = "terminal_putchar 0x08 ?n"
  have "unat (terminal_row (terminal_initialize boot)) < 25"
    by (simp add: terminal_initialize_fields)
  from newline_run [OF this initialize_blank, of 24]
  have "unat (terminal_row ?n) = 24" and k: "terminal_color ?n = 0x8C"
    by (simp_all add: terminal_initialize_fields)
  then have r: "terminal_row ?n = 24"
    by (simp add: word_unat_eq_iff)
  have c: "terminal_column ?n = 0"
    using newline_run_column [of 23 "terminal_initialize boot"] by simp
  have r0: "terminal_row ?n \<noteq> 0"
    by (simp add: r)
  note b = putchar_backspace_row_start [OF c r0]
  have br: "unat (terminal_row ?b) = 23" and bc: "unat (terminal_column ?b) = 80"
    and bk: "terminal_color ?b = 0x8C" and brw: "terminal_row ?b = 23"
    unfolding b by (simp_all add: r k)
  have n2000: "terminal_buffer ?n 2000 = 0"
  proof -
    have "terminal_buffer (terminal_write (replicate k 0x0A) t) 2000 = terminal_buffer t 2000"
      for k t
      by (induction k arbitrary: t) (simp_all add: putchar_newline terminal_scroll_buffer)
    then show ?thesis
      by (simp add: terminal_initialize_buffer boot_def)
  qed
  have b2000: "terminal_buffer ?b 2000 = 0"
    unfolding b by (simp add: r n2000 cell_of_index_def VGA_MEMORY_def)
  have a: "\<forall>c\<in>set (replicate 80 (0x61 :: uint8_t)). c \<noteq> 0x0A \<and> c \<noteq> 0x09 \<and> c \<noteq> 0x08"
    by simp
  have p2: "80 \<le> unat (terminal_column ?b)"
    by (simp add: bc)
  have p3: "unat (terminal_column ?b) + length (replicate 80 (0x61 :: uint8_t)) \<le> 161"
    by (simp add: bc)
  have p4: "unat (terminal_row ?b) < 25"
    by (simp add: br)
  note run = overrun_run [OF a p2 p3 p4, folded last_row_far_right_def, unfolded br bc bk]
  show "terminal_row last_row_far_right = 23"
    using run brw by simp
  have "unat (terminal_column last_row_far_right) = 160"
    using run by simp
  then show "terminal_column last_row_far_right = 160"
    by (simp add: word_unat_eq_iff)
  show "terminal_color last_row_far_right = 0x8C"
    using run by simp
  have "terminal_buffer last_row_far_right 2000 =
      (if 23 * 80 + 80 \<le> (2000 :: nat)
          \<and> (2000 :: nat) < 23 * 80 + 80 + length (replicate 80 (0x61 :: uint8_t))
       then vga_entry (replicate 80 0x61 ! (2000 - (23 * 80 + 80))) 0x8C
       else terminal_buffer ?b 2000)"
    using run by blast
  then show "terminal_buffer last_row_far_right 2000 = 0"
    by (simp add: b2000)
qed

text \<open>
  Claim C10, at the input where the code departs from it. After initialisation,
  twenty-four newlines, a backspace and eighty letters the cursor is at row 23,
  column 160. One more letter triggers no scroll (the column does not become
  \<open>VGA_WIDTH\<close>), yet it changes no cell of the grid: the cells below
  \<open>VGA_WIDTH * VGA_HEIGHT\<close> are all as before, and the letter is stored at flat index
  \<open>VGA_WIDTH * VGA_HEIGHT\<close>, outside the grid.
\<close>

theorem regular_byte_past_grid_changes_no_grid_cell:
  "terminal_row last_row_far_right = 23
   \<and> terminal_column last_row_far_right = 160
   \<and> terminal_column last_row_far_right + 1 \<noteq> VGA_WIDTH
   \<and> terminal_column (terminal_putchar 0x61 last_row_far_right) = 161
   \<and> terminal_row (terminal_putchar 0x61 last_row_far_right) = 23
   \<and> map (terminal_buffer (terminal_putchar 0x61 last_row_far_right)) [0..<VGA_WIDTH * VGA_HEIGHT]
       = map (terminal_buffer last_row_far_right) [0..<VGA_WIDTH * VGA_HEIGHT]
   \<and> terminal_buffer last_row_far_right (VGA_WIDTH * VGA_HEIGHT) = 0
   \<and> terminal_buffer (terminal_putchar 0x61 last_row_far_right) (VGA_WIDTH * VGA_HEIGHT)
       = vga_entry 0x61 (terminal_color last_row_far_right)
   \<and> vga_entry 0x61 (terminal_color last_row_far_right) \<noteq> 0"
proof -
  have c: "(0x61 :: uint8_t) \<noteq> 0x0A" "(0x61 :: uint8_t) \<noteq> 0x09" "(0x61 :: uint8_t) \<noteq> 0x08"
    by simp_all
  note p = putchar_regular [OF c, of last_row_far_right]
  have cell: "cell_of_index (terminal_row last_row_far_right * 80
      + terminal_column last_row_far_right) = 2000"
    by (simp add: last_row_far_right_fields cell_of_index_def VGA_MEMORY_def)
  have after: "terminal_buffer (terminal_putchar 0x61 last_row_far_right)
      = (terminal_buffer last_row_far_right)(2000 := vga_entry 0x61 0x8C)"
    unfolding p(4) cell by (simp add: last_row_far_right_fields Let_def)
  have grid: "map (terminal_buffer (terminal_putchar 0x61 last_row_far_right)) [0..<2000]
      = map (terminal_buffer last_row_far_right) [0..<2000]"
    unfolding after by (rule map_cong) simp_all
  show ?thesis
    using grid
    by (simp add: p(1,2) after last_row_far_right_fields VGA_WIDTH_def VGA_HEIGHT_def
        vga_entry_def)
qed

end
